theory Spec2Isabelle
  imports Complex_Main "HOL-Library.Word" "HOL-Library.Char_ord" "HOL-Library.List_Lexorder"
begin

section \<open>Multi-process communication primitives of \<^verbatim>\<open>mesh_graphormer/utils/comm.py\<close>\<close>

text \<open>
  The module is written against \<^verbatim>\<open>torch.distributed\<close> (imported as \<^verbatim>\<open>dist\<close>),
  \<^verbatim>\<open>pickle\<close> and \<^verbatim>\<open>torch\<close>. Each function below is the code one process runs. What
  the library calls return is taken from the process group the process belongs to: the
  record \<open>dist\<close> holds the state of \<^verbatim>\<open>torch.distributed\<close> as this process sees it,
  together with the argument every other rank passes to the matching call.
  A collective call comes back only when every rank of the group has reached it.
\<close>

subsection \<open>Data\<close>

type_synonym byte = "8 word"
type_synonym bytes = "byte list"

text \<open>The exceptions that can leave the two functions.\<close>

datatype error = PicklingError | UnpicklingError | ValueError | RuntimeError | KeyError

text \<open>
  What a call does: it returns a value, it raises, or it never comes back from a
  collective because some rank of the group does not take part in it.
\<close>

datatype 'r outcome = Returns 'r | Raises error | Blocks

text \<open>
  The calls into \<^verbatim>\<open>pickle\<close> and \<^verbatim>\<open>torch.distributed\<close> that a process issues, in
  order, each with the argument it passes: the payload is not recorded for \<open>Dumps\<close>,
  \<open>All_gather\<close> carries the local size, \<open>Gather\<close> the tensor sent, \<open>Loads\<close> the
  buffer handed to \<^verbatim>\<open>pickle.loads\<close>, \<open>Reduce\<close> the stacked values.
\<close>

datatype call = Dumps | All_gather int | Gather bytes | Loads bytes | Reduce "real list" | Barrier

record 'x dist =
  dist_is_available :: bool
  dist_is_initialized :: bool
  dist_get_world_size :: nat
  dist_get_rank :: nat
  dist_peer :: "nat \<Rightarrow> 'x"

text \<open>
  \<open>dist_peer d i\<close> is the argument the process of rank \<open>i\<close> passes to the call that
  matches the one under study (read for the ranks other than \<open>dist_get_rank d\<close> only).
\<close>

text \<open>
  \<^verbatim>\<open>pickle.dumps\<close> and \<^verbatim>\<open>pickle.loads\<close>, \<open>None\<close> when they raise. The codec is not
  code of this module, so it is a parameter.
\<close>

record 'a pickle =
  pickle_dumps :: "'a \<Rightarrow> bytes option"
  pickle_loads :: "bytes \<Rightarrow> 'a option"

subsection \<open>Queries on the process group\<close>

definition get_world_size :: "'x dist \<Rightarrow> nat" where
  "get_world_size d =
     (if \<not> dist_is_available d then 1
      else if \<not> dist_is_initialized d then 1
      else dist_get_world_size d)"

definition get_rank :: "'x dist \<Rightarrow> nat" where
  "get_rank d =
     (if \<not> dist_is_available d then 0
      else if \<not> dist_is_initialized d then 0
      else dist_get_rank d)"

definition is_main_process :: "'x dist \<Rightarrow> bool" where
  "is_main_process d = (get_rank d = 0)"

text \<open>\<^verbatim>\<open>synchronize\<close> returns nothing; its model is the list of calls it issues.\<close>

definition synchronize :: "'x dist \<Rightarrow> call list" where
  "synchronize d =
     (if \<not> dist_is_available d then []
      else if \<not> dist_is_initialized d then []
      else (let world_size = dist_get_world_size d in
            if world_size = 1 then [] else [Barrier]))"

subsection \<open>\<^verbatim>\<open>gather_on_master\<close>\<close>

text \<open>
  \<^verbatim>\<open>torch.ByteTensor(size=(n,))\<close> allocates \<open>n\<close> bytes and does not initialise them:
  their contents are whatever the memory held, given here by \<open>garbage\<close> (the byte
  found at each offset). A negative size raises.
\<close>

definition ByteTensor :: "(nat \<Rightarrow> byte) \<Rightarrow> int \<Rightarrow> error + bytes" where
  "ByteTensor garbage n =
     (if n < 0 then Inl RuntimeError else Inr (map garbage [0..<nat n]))"

text \<open>Python's \<^verbatim>\<open>max\<close> of a list: \<^verbatim>\<open>ValueError\<close> on the empty list.\<close>

fun py_max :: "int list \<Rightarrow> error + int" where
  "py_max [] = Inl ValueError"
| "py_max (x # xs) = Inr (fold max xs x)"

text \<open>Lines 76 to 79: the tensor is padded when its size is not the maximum.\<close>

definition pad :: "(nat \<Rightarrow> byte) \<Rightarrow> int \<Rightarrow> bytes \<Rightarrow> error + bytes" where
  "pad garbage max_size tensor =
     (let local_size = int (length tensor) in
      if local_size \<noteq> max_size then
        (case ByteTensor garbage (max_size - local_size) of
           Inl e \<Rightarrow> Inl e
         | Inr padding \<Rightarrow> Inr (tensor @ padding))
      else Inr tensor)"

text \<open>
  \<^verbatim>\<open>dist.all_gather(size_list, local_size)\<close>: the sizes of all ranks, by rank. The
  entry of this process is the size it passes; the entry of another rank is the size
  of that rank's pickled payload. A rank whose \<^verbatim>\<open>pickle.dumps\<close> raised never
  reaches the call, and then the call does not come back (\<open>None\<close>).
\<close>

definition peer_size :: "'a pickle \<Rightarrow> 'a dist \<Rightarrow> nat \<Rightarrow> int option" where
  "peer_size P d i = map_option (\<lambda>tensor. int (length tensor)) (pickle_dumps P (dist_peer d i))"

definition dist_all_gather :: "'a pickle \<Rightarrow> 'a dist \<Rightarrow> int \<Rightarrow> int list option" where
  "dist_all_gather P d local_size =
     those (map (\<lambda>i. if i = dist_get_rank d then Some local_size else peer_size P d i)
                [0..<dist_get_world_size d])"

text \<open>
  \<^verbatim>\<open>dist.gather(tensor, gather_list=tensor_list, dst=0)\<close> on rank 0: the tensors of
  all ranks, by rank. Every other rank has run the same code on its own payload, with
  the same \<open>max_size\<close> (the size list is the same on all ranks) and its own
  uninitialised memory \<open>mem i\<close>.
\<close>

definition peer_tensor :: "'a pickle \<Rightarrow> (nat \<Rightarrow> nat \<Rightarrow> byte) \<Rightarrow> 'a dist \<Rightarrow> int \<Rightarrow> nat \<Rightarrow> bytes option" where
  "peer_tensor P mem d max_size i =
     (case pickle_dumps P (dist_peer d i) of
        None \<Rightarrow> None
      | Some tensor \<Rightarrow>
         (case pad (mem i) max_size tensor of Inl e \<Rightarrow> None | Inr tensor' \<Rightarrow> Some tensor'))"

definition dist_gather :: "'a pickle \<Rightarrow> (nat \<Rightarrow> nat \<Rightarrow> byte) \<Rightarrow> 'a dist \<Rightarrow> int \<Rightarrow> bytes \<Rightarrow> bytes list option" where
  "dist_gather P mem d max_size tensor =
     those (map (\<lambda>i. if i = dist_get_rank d then Some tensor else peer_tensor P mem d max_size i)
                [0..<dist_get_world_size d])"

text \<open>
  Lines 92 to 99: every received tensor is turned into bytes, whole, and handed to
  \<^verbatim>\<open>pickle.loads\<close>; the results are appended to \<open>data_list\<close>. The calls are
  appended to \<open>calls\<close>.
\<close>

fun unpickle_all :: "'a pickle \<Rightarrow> bytes list \<Rightarrow> 'a list \<Rightarrow> call list \<Rightarrow> 'a list option outcome \<times> call list" where
  "unpickle_all P [] data_list calls = (Returns (Some data_list), calls)"
| "unpickle_all P (tensor # tensor_list) data_list calls =
     (let buffer = tensor in
      case pickle_loads P buffer of
        None \<Rightarrow> (Raises UnpicklingError, calls @ [Loads buffer])
      | Some x \<Rightarrow> unpickle_all P tensor_list (data_list @ [x]) (calls @ [Loads buffer]))"

text \<open>
  The result is \<open>Some data_list\<close> on the main process and \<open>None\<close> (Python's bare
  \<^verbatim>\<open>return\<close>) on the others, paired with the calls issued.
\<close>

definition gather_on_master ::
    "'a pickle \<Rightarrow> (nat \<Rightarrow> nat \<Rightarrow> byte) \<Rightarrow> 'a dist \<Rightarrow> 'a \<Rightarrow> 'a list option outcome \<times> call list" where
  "gather_on_master P mem d data =
     (let world_size = get_world_size d in
      if world_size = 1 then (Returns (Some [data]), [])
      else
        case pickle_dumps P data of
          None \<Rightarrow> (Raises PicklingError, [Dumps])
        | Some tensor \<Rightarrow>
           (let local_size = int (length tensor) in
            case dist_all_gather P d local_size of
              None \<Rightarrow> (Blocks, [Dumps, All_gather local_size])
            | Some size_list' \<Rightarrow>
               (case py_max size_list' of
                  Inl e \<Rightarrow> (Raises e, [Dumps, All_gather local_size])
                | Inr max_size \<Rightarrow>
                   (case pad (mem (dist_get_rank d)) max_size tensor of
                      Inl e \<Rightarrow> (Raises e, [Dumps, All_gather local_size])
                    | Inr tensor \<Rightarrow>
                       if is_main_process d then
                         (case dist_gather P mem d max_size tensor of
                            None \<Rightarrow> (Blocks, [Dumps, All_gather local_size, Gather tensor])
                          | Some tensor_list \<Rightarrow>
                              unpickle_all P tensor_list []
                                [Dumps, All_gather local_size, Gather tensor])
                       else (Returns None, [Dumps, All_gather local_size, Gather tensor])))))"

text \<open>
  The entries of a call list that carry a buffer: what was handed to
  \<^verbatim>\<open>pickle.loads\<close>, and what was sent with \<^verbatim>\<open>dist.gather\<close>.
\<close>

fun loaded :: "call list \<Rightarrow> bytes list" where
  "loaded [] = []"
| "loaded (Loads buffer # calls) = buffer # loaded calls"
| "loaded (c # calls) = loaded calls"

fun sent :: "call list \<Rightarrow> bytes list" where
  "sent [] = []"
| "sent (Gather tensor # calls) = tensor # sent calls"
| "sent (c # calls) = sent calls"

text \<open>
  The payload of rank \<open>i\<close> in the call under study, and its pickled form: the local
  one on this process, the peer's otherwise.
\<close>

definition rank_arg :: "'x dist \<Rightarrow> 'x \<Rightarrow> nat \<Rightarrow> 'x" where
  "rank_arg d x i = (if i = dist_get_rank d then x else dist_peer d i)"

definition rank_pickled :: "'a pickle \<Rightarrow> 'a dist \<Rightarrow> 'a \<Rightarrow> nat \<Rightarrow> bytes" where
  "rank_pickled P d x i = (case pickle_dumps P (rank_arg d x i) of None \<Rightarrow> [] | Some t \<Rightarrow> t)"

text \<open>
  The sizes all ranks report, the largest of them, and the pickled payload of rank
  \<open>i\<close> followed by the uninitialised bytes of that rank up to the largest size.
\<close>

definition group_sizes :: "'a pickle \<Rightarrow> 'a dist \<Rightarrow> 'a \<Rightarrow> int list" where
  "group_sizes P d x =
     map (\<lambda>i. int (length (rank_pickled P d x i))) [0..<dist_get_world_size d]"

definition group_max_size :: "'a pickle \<Rightarrow> 'a dist \<Rightarrow> 'a \<Rightarrow> int" where
  "group_max_size P d x = (case py_max (group_sizes P d x) of Inl e \<Rightarrow> 0 | Inr m \<Rightarrow> m)"

definition rank_padding :: "'a pickle \<Rightarrow> (nat \<Rightarrow> nat \<Rightarrow> byte) \<Rightarrow> 'a dist \<Rightarrow> 'a \<Rightarrow> nat \<Rightarrow> bytes" where
  "rank_padding P mem d x i =
     map (mem i) [0..<nat (group_max_size P d x - int (length (rank_pickled P d x i)))]"

definition rank_padded :: "'a pickle \<Rightarrow> (nat \<Rightarrow> nat \<Rightarrow> byte) \<Rightarrow> 'a dist \<Rightarrow> 'a \<Rightarrow> nat \<Rightarrow> bytes" where
  "rank_padded P mem d x i = rank_pickled P d x i @ rank_padding P mem d x i"

text \<open>
  What the module relies on from \<^verbatim>\<open>pickle\<close> for a payload \<open>x\<close>: it can be
  pickled, and \<^verbatim>\<open>pickle.loads\<close> gives it back from its pickled form whatever bytes
  follow (a pickle ends with its STOP opcode, and \<^verbatim>\<open>loads\<close> ignores what comes
  after it).
\<close>

definition picklable :: "'a pickle \<Rightarrow> 'a \<Rightarrow> bool" where
  "picklable P x =
     (\<exists>t. pickle_dumps P x = Some t \<and> (\<forall>junk. pickle_loads P (t @ junk) = Some x))"

text \<open>
  A codec of that kind for byte strings shorter than 256 bytes, used to run the module
  on concrete payloads: one length byte, the bytes, and a STOP byte.
\<close>

definition stop_dumps :: "bytes \<Rightarrow> bytes option" where
  "stop_dumps b = (if length b < 256 then Some (of_nat (length b) # b @ [0x2E]) else None)"

definition stop_loads :: "bytes \<Rightarrow> bytes option" where
  "stop_loads buffer =
     (case buffer of
        [] \<Rightarrow> None
      | n # rest \<Rightarrow>
          if unat n < length rest \<and> rest ! unat n = 0x2E then Some (take (unat n) rest)
          else None)"

definition stop_pickle :: "bytes pickle" where
  "stop_pickle = \<lparr>pickle_dumps = stop_dumps, pickle_loads = stop_loads\<rparr>"

text \<open>
  The specification's description of two steps, for comparison with the code: the
  buffer of rank \<open>i\<close> padded with zero bytes up to the largest size, and the received
  buffers each cut back to the size its rank reported.
\<close>

definition zero_padded :: "'a pickle \<Rightarrow> 'a dist \<Rightarrow> 'a \<Rightarrow> nat \<Rightarrow> bytes" where
  "zero_padded P d x i =
     rank_pickled P d x i @
     replicate (nat (group_max_size P d x - int (length (rank_pickled P d x i)))) 0"

definition truncated_buffers :: "'a pickle \<Rightarrow> (nat \<Rightarrow> nat \<Rightarrow> byte) \<Rightarrow> 'a dist \<Rightarrow> 'a \<Rightarrow> bytes list" where
  "truncated_buffers P mem d x =
     map (\<lambda>i. take (nat (group_sizes P d x ! i)) (rank_padded P mem d x i))
         [0..<dist_get_world_size d]"

text \<open>
  A group of three processes for concrete runs, seen from rank \<open>r\<close>: the payloads are
  byte strings of lengths 3, 1 and 0.
\<close>

definition three_ranks :: "nat \<Rightarrow> bytes dist" where
  "three_ranks r =
     \<lparr>dist_is_available = True, dist_is_initialized = True, dist_get_world_size = 3,
      dist_get_rank = r,
      dist_peer = (\<lambda>i. if i = 0 then [1, 2, 3] else if i = 1 then [7] else [])\<rparr>"

subsection \<open>\<^verbatim>\<open>reduce_dict\<close>\<close>

text \<open>
  The values of the dictionary are tensors, and the function writes to a tensor in
  place, so tensors are references into a store: a storage is the list of the numbers
  it holds, the store is the list of the storages of this process (the address of a
  storage is its index), and a 0-dimensional tensor is one element of a storage. The
  elements are real numbers: rounding is not modelled.
\<close>

type_synonym storage = "real list"
type_synonym heap = "storage list"

record tensor =
  tensor_storage :: nat
  tensor_offset :: nat

definition item :: "heap \<Rightarrow> tensor \<Rightarrow> real" where
  "item h t = h ! tensor_storage t ! tensor_offset t"


text \<open>
  A dictionary is the list of its items in insertion order; its keys are distinct.
  \<^verbatim>\<open>input_dict[k]\<close> raises \<^verbatim>\<open>KeyError\<close> for a key that is not there.
\<close>

definition getitem :: "('k \<times> 'v) list \<Rightarrow> 'k \<Rightarrow> error + 'v" where
  "getitem m k = (case map_of m k of None \<Rightarrow> Inl KeyError | Some v \<Rightarrow> Inr v)"

text \<open>Lines 118 to 120: the loop over the sorted keys, appending to both lists.\<close>

fun sorted_items :: "('k \<times> 'v) list \<Rightarrow> 'k list \<Rightarrow> 'k list \<Rightarrow> 'v list \<Rightarrow> error + 'k list \<times> 'v list" where
  "sorted_items m [] names values = Inr (names, values)"
| "sorted_items m (k # ks) names values =
     (case getitem m k of
        Inl e \<Rightarrow> Inl e
      | Inr v \<Rightarrow> sorted_items m ks (names @ [k]) (values @ [v]))"

text \<open>
  \<^verbatim>\<open>torch.stack(values, dim=0)\<close> raises on an empty list; otherwise it copies the
  elements into a new storage and returns the address of it.
\<close>

definition torch_stack :: "heap \<Rightarrow> tensor list \<Rightarrow> error + nat \<times> heap" where
  "torch_stack h ts =
     (if ts = [] then Inl RuntimeError else Inr (length h, h @ [map (item h) ts]))"

text \<open>
  Iterating over a 1-dimensional tensor gives its elements as views of its storage.
\<close>

definition unbind :: "heap \<Rightarrow> nat \<Rightarrow> tensor list" where
  "unbind h a = map (\<lambda>j. \<lparr>tensor_storage = a, tensor_offset = j\<rparr>) [0..<length (h ! a)]"

text \<open>
  Another rank is given by the dictionary it passes, with the values themselves in the
  place of the tensors. It runs the same lines and reaches \<^verbatim>\<open>dist.reduce\<close> with
  its stacked values, unless it raised before (\<open>None\<close>).
\<close>

definition peer_values :: "('k::linorder \<times> real) list \<Rightarrow> real list option" where
  "peer_values m =
     (case sorted_items m (sort (map fst m)) [] [] of
        Inl e \<Rightarrow> None
      | Inr (names, values) \<Rightarrow> if values = [] then None else Some values)"

text \<open>
  \<^verbatim>\<open>dist.reduce(values, dst=0)\<close>: the contents of \<open>values\<close> after the call. On
  rank 0 it is the sum, position by position, of what all ranks passed. On another
  rank it is an intermediate result that the library does not specify, \<open>leftover\<close>.
  The call does not come back (\<open>None\<close>) when a rank does not reach it; the library
  defines nothing for tensors of different shapes, and the model gives no result then
  either.
\<close>

definition dist_reduce :: "(nat \<Rightarrow> real) \<Rightarrow> ('k::linorder \<times> real) list dist \<Rightarrow> real list \<Rightarrow> real list option" where
  "dist_reduce leftover d values =
     (case those (map (\<lambda>i. if i = dist_get_rank d then Some values
                            else peer_values (dist_peer d i))
                      [0..<dist_get_world_size d]) of
        None \<Rightarrow> None
      | Some contributions \<Rightarrow>
          if list_all (\<lambda>vs. length vs = length values) contributions then
            Some (if dist_get_rank d = 0
                  then map (\<lambda>j. sum_list (map (\<lambda>vs. vs ! j) contributions)) [0..<length values]
                  else map leftover [0..<length values])
          else None)"

text \<open>
  The result is the returned dictionary, the store afterwards, and the calls issued.
\<close>

definition reduce_dict ::
    "(nat \<Rightarrow> real) \<Rightarrow> ('k::linorder \<times> real) list dist \<Rightarrow> heap \<Rightarrow> ('k \<times> tensor) list \<Rightarrow> bool
       \<Rightarrow> ('k \<times> tensor) list outcome \<times> heap \<times> call list" where
  "reduce_dict leftover d h input_dict average =
     (let world_size = get_world_size d in
      if world_size < 2 then (Returns input_dict, h, [])
      else
        case sorted_items input_dict (sort (map fst input_dict)) [] [] of
          Inl e \<Rightarrow> (Raises e, h, [])
        | Inr (names, values) \<Rightarrow>
           (case torch_stack h values of
              Inl e \<Rightarrow> (Raises e, h, [])
            | Inr (values, h1) \<Rightarrow>
               (case dist_reduce leftover d (h1 ! values) of
                  None \<Rightarrow> (Blocks, h1, [Reduce (h1 ! values)])
                | Some reduced \<Rightarrow>
                   (let h2 = h1[values := reduced];
                        h3 = (if dist_get_rank d = 0 \<and> average
                              then h2[values := map (\<lambda>v. v / real world_size) (h2 ! values)]
                              else h2);
                        reduced_dict = zip names (unbind h3 values)
                    in (Returns reduced_dict, h3, [Reduce (h1 ! values)])))))"

text \<open>
  Reading a run of \<open>reduce_dict\<close>: the returned dictionary with the numbers its tensors
  hold in the store the run leaves, and the number under one key.
\<close>

definition read_result :: "('k \<times> tensor) list outcome \<times> heap \<times> call list \<Rightarrow> ('k \<times> real) list option" where
  "read_result run =
     (case run of
        (Returns rd, h', calls) \<Rightarrow> Some (map (\<lambda>(k, t). (k, item h' t)) rd)
      | (Raises e, h', calls) \<Rightarrow> None
      | (Blocks, h', calls) \<Rightarrow> None)"





text \<open>
  Groups of processes for concrete runs, seen from rank \<open>r\<close>: \<open>n\<close> processes that each
  pass the dictionary \<open>m\<close>. The keys are strings in their lexicographic order.
\<close>

definition ranks_with :: "nat \<Rightarrow> (string \<times> real) list \<Rightarrow> nat \<Rightarrow> (string \<times> real) list dist" where
  "ranks_with n m r =
     \<lparr>dist_is_available = True, dist_is_initialized = True, dist_get_world_size = n,
      dist_get_rank = r, dist_peer = (\<lambda>i. m)\<rparr>"

section \<open>Properties\<close>

subsection \<open>Library facts\<close>

lemma those_map_Some:
  "(\<And>x. x \<in> set xs \<Longrightarrow> f x = Some (g x)) \<Longrightarrow> those (map f xs) = Some (map g xs)"
  by (induction xs) simp_all

lemma py_max_Max:
  assumes "xs \<noteq> []"
  shows "py_max xs = Inr (Max (set xs))"
proof (cases xs)
  case Nil then show ?thesis using assms by simp
next
  case (Cons a list)
  then show ?thesis using Max.set_eq_fold [of a list] by simp
qed

lemma pad_le:
  "int (length t) \<le> m \<Longrightarrow> pad g m t = Inr (t @ map g [0..<nat (m - int (length t))])"
  by (simp add: pad_def ByteTensor_def Let_def)

lemma unpickle_all_ok:
  "list_all2 (\<lambda>b x. pickle_loads P b = Some x) bufs xs \<Longrightarrow>
   unpickle_all P bufs acc calls = (Returns (Some (acc @ xs)), calls @ map Loads bufs)"
  by (induction bufs xs arbitrary: acc calls rule: list_all2_induct) simp_all

lemma sent_append_Loads: "sent (calls @ [Loads b]) = sent calls"
  by (induction calls rule: sent.induct) simp_all

lemma sent_unpickle_all: "sent (snd (unpickle_all P bufs acc calls)) = sent calls"
  by (induction bufs arbitrary: acc calls) (simp_all add: sent_append_Loads split: option.splits)

lemma loaded_map_Loads: "loaded (map Loads bufs) = bufs"
  by (induction bufs) simp_all

lemma stop_pickle_picklable:
  assumes "length b < 256"
  shows "picklable stop_pickle b"
proof -
  have u: "unat (word_of_nat (length b) :: byte) = length b"
    using assms by (simp add: unat_of_nat)
  have "stop_loads ((word_of_nat (length b) # b @ [0x2E]) @ junk) = Some b" for junk
    by (simp add: stop_loads_def u nth_append)
  then show ?thesis
    using assms by (simp add: picklable_def stop_pickle_def stop_dumps_def)
qed

subsection \<open>A group in which every rank pickles its payload\<close>

lemma group_size_le_max:
  assumes "i < dist_get_world_size d"
  shows "int (length (rank_pickled P d x i)) \<le> group_max_size P d x"
proof -
  have ne: "group_sizes P d x \<noteq> []" using assms by (auto simp: group_sizes_def)
  have "int (length (rank_pickled P d x i)) \<in> set (group_sizes P d x)"
    using assms by (auto simp: group_sizes_def)
  then have "int (length (rank_pickled P d x i)) \<le> Max (set (group_sizes P d x))"
    by simp
  then show ?thesis by (simp add: group_max_size_def py_max_Max [OF ne])
qed

lemma py_max_group:
  assumes "0 < dist_get_world_size d"
  shows "py_max (group_sizes P d x) = Inr (group_max_size P d x)"
proof -
  have ne: "group_sizes P d x \<noteq> []" using assms by (auto simp: group_sizes_def)
  show ?thesis by (simp add: group_max_size_def py_max_Max [OF ne])
qed

lemma pad_rank:
  assumes "i < dist_get_world_size d"
  shows "pad (mem i) (group_max_size P d x) (rank_pickled P d x i) = Inr (rank_padded P mem d x i)"
  using pad_le [OF group_size_le_max [OF assms]] by (simp add: rank_padded_def rank_padding_def)

lemma length_rank_padded:
  assumes "i < dist_get_world_size d"
  shows "int (length (rank_padded P mem d x i)) = group_max_size P d x"
  using group_size_le_max [OF assms, of P x] by (simp add: rank_padded_def rank_padding_def)

lemma dumps_rank:
  assumes "pickle_dumps P (rank_arg d x i) \<noteq> None"
  shows "pickle_dumps P (rank_arg d x i) = Some (rank_pickled P d x i)"
  using assms by (auto simp: rank_pickled_def)

lemma all_gather_group:
  assumes ser: "\<And>i. i < dist_get_world_size d \<Longrightarrow> pickle_dumps P (rank_arg d x i) \<noteq> None"
  shows "dist_all_gather P d (int (length (rank_pickled P d x (dist_get_rank d)))) =
           Some (group_sizes P d x)"
  unfolding dist_all_gather_def group_sizes_def
proof (rule those_map_Some)
  fix i assume "i \<in> set [0..<dist_get_world_size d]"
  then have i: "i < dist_get_world_size d" by simp
  show "(if i = dist_get_rank d then Some (int (length (rank_pickled P d x (dist_get_rank d))))
         else peer_size P d i) = Some (int (length (rank_pickled P d x i)))"
    using dumps_rank [OF ser [OF i]] by (auto simp: peer_size_def rank_arg_def)
qed

lemma gather_group:
  assumes ser: "\<And>i. i < dist_get_world_size d \<Longrightarrow> pickle_dumps P (rank_arg d x i) \<noteq> None"
  shows "dist_gather P mem d (group_max_size P d x) (rank_padded P mem d x (dist_get_rank d)) =
           Some (map (rank_padded P mem d x) [0..<dist_get_world_size d])"
  unfolding dist_gather_def
proof (rule those_map_Some)
  fix i assume "i \<in> set [0..<dist_get_world_size d]"
  then have i: "i < dist_get_world_size d" by simp
  show "(if i = dist_get_rank d then Some (rank_padded P mem d x (dist_get_rank d))
         else peer_tensor P mem d (group_max_size P d x) i) = Some (rank_padded P mem d x i)"
  proof (cases "i = dist_get_rank d")
    case True then show ?thesis by simp
  next
    case False
    then have "pickle_dumps P (dist_peer d i) = Some (rank_pickled P d x i)"
      using dumps_rank [OF ser [OF i]] by (simp add: rank_arg_def)
    then show ?thesis using False by (simp add: peer_tensor_def pad_rank [OF i])
  qed
qed

text \<open>
  The run of \<open>gather_on_master\<close> in such a group of two or more: the three calls every
  rank issues, and then, on rank 0, the unpickling of the tensors received.
\<close>

lemma gather_on_master_run:
  assumes av: "dist_is_available d" and ini: "dist_is_initialized d"
    and n: "2 \<le> dist_get_world_size d" and r: "dist_get_rank d < dist_get_world_size d"
    and ser: "\<And>i. i < dist_get_world_size d \<Longrightarrow> pickle_dumps P (rank_arg d x i) \<noteq> None"
  shows "gather_on_master P mem d x =
     (let calls = [Dumps, All_gather (int (length (rank_pickled P d x (dist_get_rank d)))),
                   Gather (rank_padded P mem d x (dist_get_rank d))] in
      if dist_get_rank d = 0
      then unpickle_all P (map (rank_padded P mem d x) [0..<dist_get_world_size d]) [] calls
      else (Returns None, calls))"
proof -
  let ?N = "dist_get_world_size d" and ?r = "dist_get_rank d"
  have ws: "get_world_size d = ?N" using av ini by (simp add: get_world_size_def)
  have mp: "is_main_process d = (?r = 0)"
    using av ini by (simp add: is_main_process_def get_rank_def)
  have own: "pickle_dumps P x = Some (rank_pickled P d x ?r)"
    using dumps_rank [OF ser [OF r]] by (simp add: rank_arg_def)
  have mx: "py_max (group_sizes P d x) = Inr (group_max_size P d x)"
    using n by (intro py_max_group) simp
  show ?thesis
    using n gather_group [of d P x mem, OF ser]
    by (auto simp: gather_on_master_def ws own all_gather_group [OF ser] mx pad_rank [OF r] mp Let_def)
qed

lemma loads_rank_padded:
  assumes "picklable P (rank_arg d x i)"
  shows "pickle_loads P (rank_padded P mem d x i) = Some (rank_arg d x i)"
  using assms by (auto simp: picklable_def rank_padded_def rank_pickled_def)

lemma unpickle_group:
  assumes "\<And>i. i < n \<Longrightarrow> picklable P (rank_arg d x i)"
  shows "unpickle_all P (map (rank_padded P mem d x) [0..<n]) [] calls =
           (Returns (Some (map (rank_arg d x) [0..<n])),
            calls @ map Loads (map (rank_padded P mem d x) [0..<n]))"
proof -
  have "list_all2 (\<lambda>b y. pickle_loads P b = Some y)
          (map (rank_padded P mem d x) [0..<n]) (map (rank_arg d x) [0..<n])"
    using assms by (simp add: list_all2_map1 list_all2_map2 list_all2_same loads_rank_padded)
  from unpickle_all_ok [OF this, of "[]" calls] show ?thesis by simp
qed

lemma picklable_dumps: "picklable P y \<Longrightarrow> pickle_dumps P y \<noteq> None"
  by (auto simp: picklable_def)


subsection \<open>Claims on \<open>gather_on_master\<close>\<close>

text \<open>
  C6. When the world size is 1, \<open>gather_on_master\<close> returns the one-element list of
  the local payload as it is and issues no call at all: nothing is pickled and no
  collective is entered.
\<close>

theorem gather_on_master_single:
  "get_world_size d = 1 \<Longrightarrow> gather_on_master P mem d x = (Returns (Some [x]), [])"
  by (simp add: gather_on_master_def)

theorem gather_on_master_single_witness:
  "get_world_size \<lparr>dist_is_available = True, dist_is_initialized = False, dist_get_world_size = 4,
       dist_get_rank = 2, dist_peer = (\<lambda>i. ([]::bytes))\<rparr> = 1 \<and>
   gather_on_master stop_pickle (\<lambda>r j. 0)
     \<lparr>dist_is_available = True, dist_is_initialized = False, dist_get_world_size = 4,
       dist_get_rank = 2, dist_peer = (\<lambda>i. ([]::bytes))\<rparr> [1, 2, 3] = (Returns (Some [[1, 2, 3]]), [])"
proof -
  have w: "get_world_size \<lparr>dist_is_available = True, dist_is_initialized = False, dist_get_world_size = 4,
       dist_get_rank = 2, dist_peer = (\<lambda>i. ([]::bytes))\<rparr> = 1"
    by (simp add: get_world_size_def)
  show ?thesis by (rule conjI [OF w gather_on_master_single [OF w]])
qed

text \<open>
  C1. In a group of two or more processes whose payloads can be pickled, whatever
  their pickled lengths, \<open>gather_on_master\<close> returns on rank 0 the list of the payloads
  of all ranks in ascending rank order, each exactly as its rank supplied it (nothing
  cut off, no padding byte in it), and returns nothing (\<open>None\<close>) on every other rank.
\<close>

theorem gather_on_master_round_trip:
  assumes "dist_is_available d" and "dist_is_initialized d"
    and "2 \<le> dist_get_world_size d" and "dist_get_rank d < dist_get_world_size d"
    and "\<forall>i<dist_get_world_size d. picklable P (rank_arg d x i)"
  shows "fst (gather_on_master P mem d x) =
           Returns (if dist_get_rank d = 0
                    then Some (map (rank_arg d x) [0..<dist_get_world_size d])
                    else None)"
proof -
  have ser: "\<And>i. i < dist_get_world_size d \<Longrightarrow> pickle_dumps P (rank_arg d x i) \<noteq> None"
    using assms(5) by (simp add: picklable_dumps)
  have pk: "\<And>i. i < dist_get_world_size d \<Longrightarrow> picklable P (rank_arg d x i)"
    using assms(5) by simp
  show ?thesis
    by (simp add: gather_on_master_run [OF assms(1-4) ser] unpickle_group [OF pk] Let_def)
qed

theorem gather_on_master_round_trip_witness:
  "fst (gather_on_master stop_pickle (\<lambda>r j. 0xAA) (three_ranks 0) [1, 2, 3]) =
     Returns (Some [[1, 2, 3], [7], []]) \<and>
   fst (gather_on_master stop_pickle (\<lambda>r j. 0xAA) (three_ranks 1) [7]) = Returns None \<and>
   fst (gather_on_master stop_pickle (\<lambda>r j. 0xAA) (three_ranks 2) []) = Returns None"
proof -
  have p: "\<forall>i<dist_get_world_size (three_ranks r). picklable stop_pickle (rank_arg (three_ranks r) y i)"
    if "length y < 256" for r y
    using that by (simp add: stop_pickle_picklable rank_arg_def three_ranks_def)
  have up: "[0..<3] = [0, 1, 2]" by (simp add: upt_rec)
  have "fst (gather_on_master stop_pickle (\<lambda>r j. 0xAA) (three_ranks 0) [1, 2, 3]) =
          Returns (Some [[1, 2, 3], [7], []])"
    using gather_on_master_round_trip [of "three_ranks 0" stop_pickle "[1, 2, 3]" "\<lambda>r j. 0xAA", OF _ _ _ _ p]
    by (simp add: three_ranks_def rank_arg_def up)
  moreover have "fst (gather_on_master stop_pickle (\<lambda>r j. 0xAA) (three_ranks 1) [7]) = Returns None"
    using gather_on_master_round_trip [of "three_ranks 1" stop_pickle "[7]" "\<lambda>r j. 0xAA", OF _ _ _ _ p]
    by (simp add: three_ranks_def)
  moreover have "fst (gather_on_master stop_pickle (\<lambda>r j. 0xAA) (three_ranks 2) []) = Returns None"
    using gather_on_master_round_trip [of "three_ranks 2" stop_pickle "[]" "\<lambda>r j. 0xAA", OF _ _ _ _ p]
    by (simp add: three_ranks_def)
  ultimately show ?thesis by simp
qed

text \<open>
  C2, as the specification states it: on rank 0 every received buffer is cut back to
  the size its rank reported before it is unpickled. The code does not do that. In the
  group of three, the buffers handed to \<^verbatim>\<open>pickle.loads\<close> for ranks 1 and 2 are the
  received tensors in full, 5 bytes each, with the padding still at the end.
\<close>

theorem gather_on_master_truncates_counterexample:
  "loaded (snd (gather_on_master stop_pickle (\<lambda>r j. 0xAA) (three_ranks 0) [1, 2, 3])) =
     [[3, 1, 2, 3, 0x2E], [1, 7, 0x2E, 0xAA, 0xAA], [0, 0x2E, 0xAA, 0xAA, 0xAA]] \<and>
   truncated_buffers stop_pickle (\<lambda>r j. 0xAA) (three_ranks 0) [1, 2, 3] =
     [[3, 1, 2, 3, 0x2E], [1, 7, 0x2E], [0, 0x2E]] \<and>
   loaded (snd (gather_on_master stop_pickle (\<lambda>r j. 0xAA) (three_ranks 0) [1, 2, 3])) \<noteq>
     truncated_buffers stop_pickle (\<lambda>r j. 0xAA) (three_ranks 0) [1, 2, 3]"
  by code_simp

text \<open>
  C2, amended. On rank 0 every received buffer is handed to \<^verbatim>\<open>pickle.loads\<close> whole,
  in ascending rank order: it has the largest reported size, and it begins with the
  pickled payload of its rank, which is what cutting it back to the reported size
  would give. The list returned holds the payloads in ascending rank order.
\<close>

theorem gather_on_master_unpickles_whole:
  assumes "dist_is_available d" and "dist_is_initialized d"
    and "2 \<le> dist_get_world_size d" and "dist_get_rank d = 0"
    and "\<forall>i<dist_get_world_size d. picklable P (rank_arg d x i)"
  shows "loaded (snd (gather_on_master P mem d x)) =
           map (rank_padded P mem d x) [0..<dist_get_world_size d] \<and>
         (\<forall>i<dist_get_world_size d.
             int (length (rank_padded P mem d x i)) = group_max_size P d x \<and>
             take (nat (group_sizes P d x ! i)) (rank_padded P mem d x i) = rank_pickled P d x i) \<and>
         fst (gather_on_master P mem d x) =
           Returns (Some (map (rank_arg d x) [0..<dist_get_world_size d]))"
proof -
  have r: "dist_get_rank d < dist_get_world_size d" using assms(3,4) by simp
  have ser: "\<And>i. i < dist_get_world_size d \<Longrightarrow> pickle_dumps P (rank_arg d x i) \<noteq> None"
    using assms(5) by (simp add: picklable_dumps)
  have pk: "\<And>i. i < dist_get_world_size d \<Longrightarrow> picklable P (rank_arg d x i)"
    using assms(5) by simp
  have run: "gather_on_master P mem d x =
      (Returns (Some (map (rank_arg d x) [0..<dist_get_world_size d])),
       [Dumps, All_gather (int (length (rank_pickled P d x 0))), Gather (rank_padded P mem d x 0)] @
       map Loads (map (rank_padded P mem d x) [0..<dist_get_world_size d]))"
    using assms(4)
    by (simp add: gather_on_master_run [OF assms(1-3) r ser] unpickle_group [OF pk] Let_def)
  have "loaded (snd (gather_on_master P mem d x)) =
          map (rank_padded P mem d x) [0..<dist_get_world_size d]"
    using loaded_map_Loads [of "map (rank_padded P mem d x) [0..<dist_get_world_size d]"]
    by (simp add: run)
  moreover have "take (nat (group_sizes P d x ! i)) (rank_padded P mem d x i) = rank_pickled P d x i"
    if "i < dist_get_world_size d" for i
    using that by (simp add: group_sizes_def rank_padded_def)
  ultimately show ?thesis by (simp add: run length_rank_padded)
qed

theorem gather_on_master_unpickles_whole_witness:
  "loaded (snd (gather_on_master stop_pickle (\<lambda>r j. 0xAA) (three_ranks 0) [1, 2, 3])) =
     map (rank_padded stop_pickle (\<lambda>r j. 0xAA) (three_ranks 0) [1, 2, 3]) [0..<3] \<and>
   map (rank_padded stop_pickle (\<lambda>r j. 0xAA) (three_ranks 0) [1, 2, 3]) [0..<3] =
     [[3, 1, 2, 3, 0x2E], [1, 7, 0x2E, 0xAA, 0xAA], [0, 0x2E, 0xAA, 0xAA, 0xAA]] \<and>
   fst (gather_on_master stop_pickle (\<lambda>r j. 0xAA) (three_ranks 0) [1, 2, 3]) =
     Returns (Some [[1, 2, 3], [7], []])"
proof -
  have p: "\<forall>i<dist_get_world_size (three_ranks 0). picklable stop_pickle (rank_arg (three_ranks 0) [1, 2, 3] i)"
    by (simp add: stop_pickle_picklable rank_arg_def three_ranks_def)
  have up: "[0..<3] = [0, 1, 2]" by (simp add: upt_rec)
  have e: "map (rank_padded stop_pickle (\<lambda>r j. 0xAA) (three_ranks 0) [1, 2, 3]) [0..<3] =
     [[3, 1, 2, 3, 0x2E], [1, 7, 0x2E, 0xAA, 0xAA], [0, 0x2E, 0xAA, 0xAA, 0xAA]]"
    by code_simp
  show ?thesis
    using gather_on_master_unpickles_whole [of "three_ranks 0" stop_pickle "[1, 2, 3]" "\<lambda>r j. 0xAA", OF _ _ _ _ p] e
    by (simp add: three_ranks_def rank_arg_def up)
qed


text \<open>
  C3, as the specification states it: a buffer shorter than the largest size is
  padded with zero bytes. The code pads with \<^verbatim>\<open>torch.ByteTensor(size=...)\<close>, which
  is not initialised: in the group of three, with memory that holds the byte AA, rank
  1 sends its 3 pickled bytes followed by AA AA, not by 00 00.
\<close>

theorem gather_on_master_zero_padding_counterexample:
  "sent (snd (gather_on_master stop_pickle (\<lambda>r j. 0xAA) (three_ranks 1) [7])) =
     [[1, 7, 0x2E, 0xAA, 0xAA]] \<and>
   zero_padded stop_pickle (three_ranks 1) [7] 1 = [1, 7, 0x2E, 0, 0] \<and>
   sent (snd (gather_on_master stop_pickle (\<lambda>r j. 0xAA) (three_ranks 1) [7])) \<noteq>
     [zero_padded stop_pickle (three_ranks 1) [7] 1]"
  by code_simp

text \<open>
  C3, amended. In a group of two or more processes that all pickle their payloads,
  every process sends, with the one \<^verbatim>\<open>dist.gather\<close> it issues, its pickled payload
  followed by uninitialised bytes (of unspecified content) up to the largest reported
  size; so the tensors of all ranks in the gather have that same length.
\<close>

theorem gather_on_master_pads_to_max:
  assumes "dist_is_available d" and "dist_is_initialized d"
    and "2 \<le> dist_get_world_size d" and "dist_get_rank d < dist_get_world_size d"
    and "\<forall>i<dist_get_world_size d. pickle_dumps P (rank_arg d x i) \<noteq> None"
  shows "sent (snd (gather_on_master P mem d x)) =
           [rank_pickled P d x (dist_get_rank d) @ rank_padding P mem d x (dist_get_rank d)] \<and>
         int (length (rank_padding P mem d x (dist_get_rank d))) =
           group_max_size P d x - int (length (rank_pickled P d x (dist_get_rank d))) \<and>
         (\<forall>i<dist_get_world_size d. int (length (rank_padded P mem d x i)) = group_max_size P d x)"
proof -
  have ser: "\<And>i. i < dist_get_world_size d \<Longrightarrow> pickle_dumps P (rank_arg d x i) \<noteq> None"
    using assms(5) by simp
  have "sent (snd (gather_on_master P mem d x)) =
          [rank_pickled P d x (dist_get_rank d) @ rank_padding P mem d x (dist_get_rank d)]"
    by (simp add: gather_on_master_run [OF assms(1-4) ser] sent_unpickle_all Let_def
          rank_padded_def)
  moreover have "int (length (rank_padding P mem d x (dist_get_rank d))) =
           group_max_size P d x - int (length (rank_pickled P d x (dist_get_rank d)))"
    using group_size_le_max [OF assms(4), of P x] by (simp add: rank_padding_def)
  ultimately show ?thesis by (simp add: length_rank_padded)
qed

theorem gather_on_master_pads_to_max_witness:
  "sent (snd (gather_on_master stop_pickle (\<lambda>r j. 0xAA) (three_ranks 2) [])) =
     [rank_pickled stop_pickle (three_ranks 2) [] 2 @
      rank_padding stop_pickle (\<lambda>r j. 0xAA) (three_ranks 2) [] 2] \<and>
   rank_pickled stop_pickle (three_ranks 2) [] 2 = [0, 0x2E] \<and>
   rank_padding stop_pickle (\<lambda>r j. 0xAA) (three_ranks 2) [] 2 = [0xAA, 0xAA, 0xAA] \<and>
   group_max_size stop_pickle (three_ranks 2) [] = 5"
proof -
  have s: "\<forall>i<dist_get_world_size (three_ranks 2).
             pickle_dumps stop_pickle (rank_arg (three_ranks 2) [] i) \<noteq> None"
    by (simp add: rank_arg_def three_ranks_def stop_pickle_def stop_dumps_def)
  have e: "rank_pickled stop_pickle (three_ranks 2) [] 2 = [0, 0x2E] \<and>
     rank_padding stop_pickle (\<lambda>r j. 0xAA) (three_ranks 2) [] 2 = [0xAA, 0xAA, 0xAA] \<and>
     group_max_size stop_pickle (three_ranks 2) [] = 5"
    by code_simp
  have "sent (snd (gather_on_master stop_pickle (\<lambda>r j. 0xAA) (three_ranks 2) [])) =
     [rank_pickled stop_pickle (three_ranks 2) [] (dist_get_rank (three_ranks 2)) @
      rank_padding stop_pickle (\<lambda>r j. 0xAA) (three_ranks 2) [] (dist_get_rank (three_ranks 2))]"
    using gather_on_master_pads_to_max [of "three_ranks 2" stop_pickle "[]" "\<lambda>r j. 0xAA", OF _ _ _ _ s]
    by (simp add: three_ranks_def)
  moreover have "dist_get_rank (three_ranks 2) = 2" by (simp add: three_ranks_def)
  ultimately show ?thesis using e by simp
qed




subsection \<open>Facts on \<open>reduce_dict\<close>\<close>




lemma sorted_items_cong:
  "map_of m = map_of m' \<Longrightarrow> sorted_items m ks names vs = sorted_items m' ks names vs"
  by (induction ks arbitrary: names vs) (simp_all add: getitem_def split: option.splits)



lemma sort_keys_eq:
  assumes "distinct (map fst m)" and "distinct (map fst m')"
    and "set (map fst m) = set (map fst m')"
  shows "sort (map fst m) = sort (map fst m')"
  using assms by (intro sorted_distinct_set_unique) simp_all














subsection \<open>Claims on \<open>reduce_dict\<close>\<close>



text \<open>
  C7. When the world size is below 2, \<open>reduce_dict\<close> returns the dictionary it was
  given, whatever \<open>average\<close> is, leaves the store as it is, and issues no call.
\<close>

theorem reduce_dict_single:
  "get_world_size d < 2 \<Longrightarrow> reduce_dict leftover d h m average = (Returns m, h, [])"
  by (simp add: reduce_dict_def)

theorem reduce_dict_single_witness:
  "get_world_size (ranks_with 1 [] 0) < 2 \<and>
   reduce_dict (\<lambda>j. 0) (ranks_with 1 [] 0) [[3]]
     [(''loss'', \<lparr>tensor_storage = 0, tensor_offset = 0\<rparr>)] True =
     (Returns [(''loss'', \<lparr>tensor_storage = 0, tensor_offset = 0\<rparr>)], [[3]], []) \<and>
   reduce_dict (\<lambda>j. 0) (ranks_with 1 [] 0) [[3]]
     [(''loss'', \<lparr>tensor_storage = 0, tensor_offset = 0\<rparr>)] False =
     (Returns [(''loss'', \<lparr>tensor_storage = 0, tensor_offset = 0\<rparr>)], [[3]], [])"
proof -
  have w: "get_world_size (ranks_with 1 [] 0) < 2"
    by (simp add: get_world_size_def ranks_with_def)
  show ?thesis using w reduce_dict_single [OF w] by simp
qed


lemma same_items:
  assumes "distinct (map fst m)" and "distinct (map fst m')" and "set m = set m'"
  shows "sort (map fst m) = sort (map fst m')" and "map_of m = map_of m'"
proof -
  have "set (map fst m) = set (map fst m')" using assms(3) by simp
  then show "sort (map fst m) = sort (map fst m')" by (rule sort_keys_eq [OF assms(1,2)])
  show "map_of m = map_of m'" using assms by (simp add: map_of_inject_set)
qed

lemma peer_values_same_items:
  assumes "distinct (map fst m)" and "distinct (map fst m')" and "set m = set m'"
  shows "peer_values m = peer_values m'"
  using same_items [OF assms] sorted_items_cong [of m m']
  by (simp add: peer_values_def)

lemma dist_reduce_same_items:
  assumes "\<And>i. i < dist_get_world_size d \<Longrightarrow> peer_values (peers' i) = peer_values (dist_peer d i)"
  shows "dist_reduce leftover (d\<lparr>dist_peer := peers'\<rparr>) vs = dist_reduce leftover d vs"
proof -
  have eq: "map (\<lambda>i. if i = dist_get_rank d then Some vs else peer_values (peers' i))
            [0..<dist_get_world_size d] =
        map (\<lambda>i. if i = dist_get_rank d then Some vs else peer_values (dist_peer d i))
            [0..<dist_get_world_size d]"
    by (rule map_cong [OF refl]) (simp add: assms)
  have p: "dist_peer (d\<lparr>dist_peer := peers'\<rparr>) = peers'"
    and r: "dist_get_rank (d\<lparr>dist_peer := peers'\<rparr>) = dist_get_rank d"
    and w: "dist_get_world_size (d\<lparr>dist_peer := peers'\<rparr>) = dist_get_world_size d"
    by simp_all
  show ?thesis unfolding dist_reduce_def p r w eq ..
qed

text \<open>
  C5. In a group of two or more processes, \<open>reduce_dict\<close> reads the dictionaries
  through their sorted keys: when the local dictionary and the dictionaries of the
  other ranks are replaced by dictionaries with the same items inserted in another
  order, the run is the same (the same result, store and calls), on every rank.
\<close>

theorem reduce_dict_insertion_order:
  assumes "2 \<le> get_world_size d"
    and "distinct (map fst m)" and "distinct (map fst m')" and "set m' = set m"
    and "\<forall>i<dist_get_world_size d.
           distinct (map fst (dist_peer d i)) \<and> distinct (map fst (peers' i)) \<and>
           set (peers' i) = set (dist_peer d i)"
  shows "reduce_dict leftover (d\<lparr>dist_peer := peers'\<rparr>) h m' average =
         reduce_dict leftover d h m average"
proof -
  have ws: "get_world_size (d\<lparr>dist_peer := peers'\<rparr>) = get_world_size d"
    by (simp add: get_world_size_def)
  have k: "sort (map fst m') = sort (map fst m)" and mo: "map_of m' = map_of m"
    using same_items [OF assms(3,2,4)] by simp_all
  have si: "sorted_items m' ks names vs = sorted_items m ks names vs" for ks names vs
    by (rule sorted_items_cong [OF mo])
  have pv: "\<And>i. i < dist_get_world_size d \<Longrightarrow> peer_values (peers' i) = peer_values (dist_peer d i)"
    using assms(5) by (simp add: peer_values_same_items)
  have r: "dist_get_rank (d\<lparr>dist_peer := peers'\<rparr>) = dist_get_rank d" by simp
  have dr: "dist_reduce leftover (d\<lparr>dist_peer := peers'\<rparr>) = dist_reduce leftover d"
    by (rule ext) (rule dist_reduce_same_items [OF pv])
  show ?thesis
    unfolding reduce_dict_def ws k si dr r
    using assms(1) by (simp add: Let_def)
qed


theorem reduce_dict_insertion_order_witness:
  "reduce_dict (\<lambda>j. 0) (ranks_with 2 [(''a'', 1), (''b'', 2)] 0) [[10], [20]]
     [(''b'', \<lparr>tensor_storage = 1, tensor_offset = 0\<rparr>),
      (''a'', \<lparr>tensor_storage = 0, tensor_offset = 0\<rparr>)] True =
   reduce_dict (\<lambda>j. 0) (ranks_with 2 [(''b'', 2), (''a'', 1)] 0) [[10], [20]]
     [(''a'', \<lparr>tensor_storage = 0, tensor_offset = 0\<rparr>),
      (''b'', \<lparr>tensor_storage = 1, tensor_offset = 0\<rparr>)] True \<and>
   read_result (reduce_dict (\<lambda>j. 0) (ranks_with 2 [(''b'', 2), (''a'', 1)] 0) [[10], [20]]
     [(''a'', \<lparr>tensor_storage = 0, tensor_offset = 0\<rparr>),
      (''b'', \<lparr>tensor_storage = 1, tensor_offset = 0\<rparr>)] True) =
     Some [(''a'', 11 / 2), (''b'', 11)]"
proof -
  let ?d = "ranks_with 2 [(''b'', 2), (''a'', 1)] 0"
  have u: "?d\<lparr>dist_peer := (\<lambda>i. [(''a'', 1), (''b'', 2)])\<rparr> = ranks_with 2 [(''a'', 1), (''b'', 2)] 0"
    by (simp add: ranks_with_def)
  have w: "2 \<le> get_world_size ?d" by (simp add: get_world_size_def ranks_with_def)
  have p: "\<forall>i<dist_get_world_size ?d.
           distinct (map fst (dist_peer ?d i)) \<and> distinct (map fst [(''a'', 1::real), (''b'', 2)]) \<and>
           set [(''a'', 1), (''b'', 2)] = set (dist_peer ?d i)"
    by (auto simp: ranks_with_def)
  have e: "read_result (reduce_dict (\<lambda>j. 0) ?d [[10], [20]]
     [(''a'', \<lparr>tensor_storage = 0, tensor_offset = 0\<rparr>),
      (''b'', \<lparr>tensor_storage = 1, tensor_offset = 0\<rparr>)] True) =
     Some [(''a'', 11 / 2), (''b'', 11)]"
    by code_simp
  have "reduce_dict (\<lambda>j. 0) (?d\<lparr>dist_peer := (\<lambda>i. [(''a'', 1), (''b'', 2)])\<rparr>) [[10], [20]]
     [(''b'', \<lparr>tensor_storage = 1, tensor_offset = 0\<rparr>),
      (''a'', \<lparr>tensor_storage = 0, tensor_offset = 0\<rparr>)] True =
   reduce_dict (\<lambda>j. 0) ?d [[10], [20]]
     [(''a'', \<lparr>tensor_storage = 0, tensor_offset = 0\<rparr>),
      (''b'', \<lparr>tensor_storage = 1, tensor_offset = 0\<rparr>)] True"
    by (rule reduce_dict_insertion_order [OF w _ _ _ p]) auto
  then show ?thesis unfolding u using e by simp
qed








subsection \<open>Determinism\<close>







end
